theory Spec2Isabelle
  imports Main "HOL-Library.Sublist"
begin

section \<open>Loopback port probing: \<^verbatim>\<open>src/utils/portCheck.ts\<close>\<close>

text \<open>
  The module exports three asynchronous functions: \<^verbatim>\<open>isPortAvailable\<close> (bind a
  listening socket to one port of 127.0.0.1 and release it), \<^verbatim>\<open>findAvailablePort\<close>
  (probe \<open>startPort, startPort + 1, \<dots>\<close> until one probe succeeds) and
  \<^verbatim>\<open>getAvailablePort\<close> (probe the preferred port, then scan forward from the next one).
  Every \<^verbatim>\<open>await\<close> completes before the next statement runs and no two probes
  overlap, so each function is modelled as a function from the state of the socket layer
  to the way its promise settles and the state afterwards. A promise settles in one of
  two ways: it is rejected with an exception (\<open>Inl\<close>) or resolved with a value
  (\<open>Inr\<close>).

  Port numbers and attempt counts are values of the TypeScript type \<^verbatim>\<open>number\<close>.
  They are modelled as \<open>int\<close>: the theory is about the integers on which the additions
  of the source are exact, which include every port number and every window of 50 ports
  after one.
\<close>

subsection \<open>The socket layer\<close>

text \<open>
  The module reaches the operating system through \<^verbatim>\<open>createServer\<close>,
  \<^verbatim>\<open>server.listen(port, "127.0.0.1")\<close> and \<^verbatim>\<open>server.close()\<close> of the
  \<^verbatim>\<open>net\<close> library. \<^verbatim>\<open>listen\<close> first validates its argument: for a number that
  is not in 0..65535 it throws the \<^verbatim>\<open>RangeError\<close> with code
  \<^verbatim>\<open>ERR_SOCKET_BAD_PORT\<close>, before any socket is bound. Otherwise the server emits
  one of the two events the module subscribes to: \<^verbatim>\<open>"listening"\<close>, or
  \<^verbatim>\<open>"error"\<close> with the error code of the failed bind.
\<close>

datatype errno = EADDRINUSE | EACCES | EOTHER string

datatype server_event = Ev_error errno | Ev_listening

datatype exn = ERR_SOCKET_BAD_PORT

text \<open>
  The state of the socket layer: \<open>bind_error\<close> is the part this process does not
  control (for each port, the error a bind meets because of another process or of the
  system's policy, if any); \<open>bound\<close> are the ports held by listening sockets of this
  process; \<open>listen_log\<close> records the numbers passed to \<^verbatim>\<open>listen\<close>, in call order.
\<close>

record os =
  bind_error :: "int \<Rightarrow> errno option"
  bound :: "int set"
  listen_log :: "int list"

definition listen :: "os \<Rightarrow> int \<Rightarrow> (exn + server_event) \<times> os" where
  "listen s prt =
     (let s' = s\<lparr>listen_log := listen_log s @ [prt]\<rparr>
      in if prt < 0 \<or> 65535 < prt then (Inl ERR_SOCKET_BAD_PORT, s')
         else case bind_error s prt of
                Some err \<Rightarrow> (Inr (Ev_error err), s')
              | None \<Rightarrow>
                  if prt \<in> bound s then (Inr (Ev_error EADDRINUSE), s')
                  else (Inr Ev_listening, s'\<lparr>bound := insert prt (bound s)\<rparr>))"

definition close :: "os \<Rightarrow> int \<Rightarrow> os" where
  "close s prt = s\<lparr>bound := bound s - {prt}\<rparr>"

text \<open>
  A port is free when a bind to it succeeds, and busy when a bind to it fails with an
  error event. A number that is not a port is neither.
\<close>

definition free :: "os \<Rightarrow> int \<Rightarrow> bool" where
  "free s prt = (case fst (listen s prt) of Inr Ev_listening \<Rightarrow> True | _ \<Rightarrow> False)"

definition busy :: "os \<Rightarrow> int \<Rightarrow> bool" where
  "busy s prt = (case fst (listen s prt) of Inr (Ev_error err) \<Rightarrow> True | _ \<Rightarrow> False)"

subsection \<open>The probe\<close>

text \<open>
  \<^verbatim>\<open>isPortAvailable\<close>: the \<^verbatim>\<open>"error"\<close> handler resolves the promise with
  \<^verbatim>\<open>false\<close> in both branches of its test of the error code; the
  \<^verbatim>\<open>"listening"\<close> handler closes the server and then resolves with \<^verbatim>\<open>true\<close>.
  The call of \<^verbatim>\<open>listen\<close> stands in the executor of the promise with no
  \<^verbatim>\<open>try\<close> around it, so an exception it throws rejects the promise.
\<close>

definition isPortAvailable :: "os \<Rightarrow> int \<Rightarrow> (exn + bool) \<times> os" where
  "isPortAvailable s prt =
     (case listen s prt of
        (Inl e, s') \<Rightarrow> (Inl e, s')
      | (Inr (Ev_error err), s') \<Rightarrow>
          if err = EADDRINUSE \<or> err = EACCES then (Inr False, s') else (Inr False, s')
      | (Inr Ev_listening, s') \<Rightarrow> (Inr True, close s' prt))"

subsection \<open>The scan\<close>

text \<open>
  The loop \<^verbatim>\<open>for (let i = 0; i < maxAttempts; i++)\<close> of \<^verbatim>\<open>findAvailablePort\<close>,
  entered at counter \<open>i\<close>. An \<^verbatim>\<open>await\<close> of a rejected promise throws; the function
  catches nothing, so its own promise is rejected with the same exception.
\<close>

function findAvailablePort_loop :: "os \<Rightarrow> int \<Rightarrow> int \<Rightarrow> int \<Rightarrow> (exn + int) \<times> os" where
  "findAvailablePort_loop s startPort maxAttempts i =
     (if i < maxAttempts then
        (case isPortAvailable s (startPort + i) of
           (Inl e, s') \<Rightarrow> (Inl e, s')
         | (Inr True, s') \<Rightarrow> (Inr (startPort + i), s')
         | (Inr False, s') \<Rightarrow> findAvailablePort_loop s' startPort maxAttempts (i + 1))
      else (Inr (- 1), s))"
  by pat_completeness auto
termination
  by (relation "measure (\<lambda>(s, startPort, maxAttempts, i). nat (maxAttempts - i))") auto

text \<open>The parameter \<^verbatim>\<open>maxAttempts\<close> is optional and defaults to 50.\<close>

definition findAvailablePort :: "os \<Rightarrow> int \<Rightarrow> int option \<Rightarrow> (exn + int) \<times> os" where
  "findAvailablePort s startPort maxAttempts_arg =
     (let maxAttempts = (case maxAttempts_arg of None \<Rightarrow> 50 | Some m \<Rightarrow> m)
      in findAvailablePort_loop s startPort maxAttempts 0)"

subsection \<open>Template literals\<close>

text \<open>
  A template literal \<^verbatim>\<open>${n}\<close> writes the number \<open>n\<close> as \<^verbatim>\<open>String(n)\<close> does:
  for an integer, its decimal digits, most significant first, after a minus sign when it
  is negative.
\<close>

definition digit :: "nat \<Rightarrow> char" where
  "digit d = ''0123456789'' ! d"

fun decimal :: "nat \<Rightarrow> string" where
  "decimal n = (if 10 \<le> n then decimal (n div 10) @ [digit (n mod 10)] else [digit n])"

definition toString :: "int \<Rightarrow> string" where
  "toString n = (if 0 \<le> n then decimal (nat n) else CHR ''-'' # decimal (nat (- n)))"

subsection \<open>Preferred-port resolution\<close>

record resolution =
  port :: int
  switched :: bool
  message :: "string option"

text \<open>
  The parameter \<^verbatim>\<open>autoSwitch\<close> is optional and defaults to \<^verbatim>\<open>true\<close>. Neither
  \<^verbatim>\<open>await\<close> is inside a \<^verbatim>\<open>try\<close>.
\<close>

definition getAvailablePort :: "os \<Rightarrow> int \<Rightarrow> bool option \<Rightarrow> (exn + resolution) \<times> os" where
  "getAvailablePort s preferredPort autoSwitch_arg =
     (let autoSwitch = (case autoSwitch_arg of None \<Rightarrow> True | Some b \<Rightarrow> b)
      in case isPortAvailable s preferredPort of
           (Inl e, s1) \<Rightarrow> (Inl e, s1)
         | (Inr isAvailable, s1) \<Rightarrow>
             if isAvailable then
               (Inr \<lparr>port = preferredPort, switched = False, message = None\<rparr>, s1)
             else if \<not> autoSwitch then
               (Inr \<lparr>port = - 1, switched = False,
                 message = Some (''Port '' @ toString preferredPort @
                   '' is already in use. Please specify a different port in config.json or enable auto port switching.'')\<rparr>,
                s1)
             else
               (case findAvailablePort s1 (preferredPort + 1) None of
                  (Inl e, s2) \<Rightarrow> (Inl e, s2)
                | (Inr availablePort, s2) \<Rightarrow>
                    if availablePort = - 1 then
                      (Inr \<lparr>port = - 1, switched = False,
                        message = Some (''Port '' @ toString preferredPort @
                          '' is in use and no available ports found in range '' @
                          toString (preferredPort + 1) @ ''-'' @
                          toString (preferredPort + 50) @ ''.'')\<rparr>,
                       s2)
                    else
                      (Inr \<lparr>port = availablePort, switched = True,
                        message = Some (''Port '' @ toString preferredPort @
                          '' is in use, automatically switched to port '' @
                          toString availablePort @ ''.'')\<rparr>,
                       s2)))"

subsection \<open>Example states of the socket layer\<close>

text \<open>
  \<open>os_scan\<close>: ports 3000 to 3002 refuse a bind, each with a different error code, port
  3003 is free and port 3004 is taken. \<open>os_idle\<close>: nothing is taken. \<open>os_8080\<close>: only
  port 8080 is taken. \<open>os_8080_8130\<close>: ports 8080 to 8130 are taken.
  \<open>os_window_edge\<close>: ports 8080 to 8129 are taken, so that the last port of the window
  after 8080 is the first free one. \<open>os_high\<close>: the ports from 65500 up to the last
  one, 65535, are taken.
\<close>

definition os_scan :: os where
  "os_scan =
     \<lparr>bind_error = (\<lambda>p. if p = 3000 then Some EADDRINUSE
                       else if p = 3001 then Some EACCES
                       else if p = 3002 then Some (EOTHER ''EADDRNOTAVAIL'')
                       else if p = 3004 then Some EADDRINUSE else None),
      bound = {}, listen_log = []\<rparr>"

definition os_idle :: os where
  "os_idle = \<lparr>bind_error = (\<lambda>p. None), bound = {}, listen_log = []\<rparr>"

definition os_8080 :: os where
  "os_8080 =
     \<lparr>bind_error = (\<lambda>p. if p = 8080 then Some EADDRINUSE else None),
      bound = {}, listen_log = []\<rparr>"

definition os_8080_8130 :: os where
  "os_8080_8130 =
     \<lparr>bind_error = (\<lambda>p. if 8080 \<le> p \<and> p \<le> 8130 then Some EADDRINUSE else None),
      bound = {}, listen_log = []\<rparr>"

definition os_window_edge :: os where
  "os_window_edge =
     \<lparr>bind_error = (\<lambda>p. if 8080 \<le> p \<and> p \<le> 8129 then Some EADDRINUSE else None),
      bound = {}, listen_log = []\<rparr>"

definition os_high :: os where
  "os_high =
     \<lparr>bind_error = (\<lambda>p. if 65500 \<le> p \<and> p \<le> 65535 then Some EADDRINUSE else None),
      bound = {}, listen_log = []\<rparr>"

section \<open>Properties\<close>

subsection \<open>Auxiliary facts\<close>

declare findAvailablePort_loop.simps [simp del]
declare decimal.simps [simp del]

lemma free_iff:
  "free s p \<longleftrightarrow> 0 \<le> p \<and> p \<le> 65535 \<and> bind_error s p = None \<and> p \<notin> bound s"
  by (auto simp: free_def listen_def Let_def split: option.splits)

lemma busy_iff: "busy s p \<longleftrightarrow> 0 \<le> p \<and> p \<le> 65535 \<and> \<not> free s p"
  by (auto simp: busy_def free_def listen_def Let_def split: option.splits)

lemma free_listen_log [simp]: "free (s\<lparr>listen_log := l\<rparr>) p = free s p"
  by (simp add: free_iff)

lemma busy_listen_log [simp]: "busy (s\<lparr>listen_log := l\<rparr>) p = busy s p"
  by (simp add: busy_iff)

text \<open>
  A probe logs one call of \<^verbatim>\<open>listen\<close> and changes nothing else: the socket it bound
  is closed again. It is rejected for a number that is not a port, and otherwise answers
  whether the port is free.
\<close>

lemma isPortAvailable_eq:
  "isPortAvailable s p =
     (if p < 0 \<or> 65535 < p then Inl ERR_SOCKET_BAD_PORT else Inr (free s p),
      s\<lparr>listen_log := listen_log s @ [p]\<rparr>)"
  by (auto simp: isPortAvailable_def listen_def close_def free_iff Let_def
      split: option.splits)

lemma isPortAvailable_free:
  "free s p \<Longrightarrow> isPortAvailable s p = (Inr True, s\<lparr>listen_log := listen_log s @ [p]\<rparr>)"
  by (auto simp: isPortAvailable_eq free_iff)

lemma isPortAvailable_busy:
  "busy s p \<Longrightarrow> isPortAvailable s p = (Inr False, s\<lparr>listen_log := listen_log s @ [p]\<rparr>)"
  by (auto simp: isPortAvailable_eq busy_iff)

text \<open>One unfolding of the loop, by the four ways an iteration can go.\<close>

lemma loop_stop:
  "i < m \<Longrightarrow> free s (start + i) \<Longrightarrow>
   findAvailablePort_loop s start m i =
     (Inr (start + i), s\<lparr>listen_log := listen_log s @ [start + i]\<rparr>)"
  by (subst findAvailablePort_loop.simps) (simp add: isPortAvailable_free)

lemma loop_continue:
  "i < m \<Longrightarrow> busy s (start + i) \<Longrightarrow>
   findAvailablePort_loop s start m i =
     findAvailablePort_loop (s\<lparr>listen_log := listen_log s @ [start + i]\<rparr>) start m (i + 1)"
  by (subst findAvailablePort_loop.simps) (simp add: isPortAvailable_busy)

lemma loop_reject:
  "i < m \<Longrightarrow> start + i < 0 \<or> 65535 < start + i \<Longrightarrow>
   findAvailablePort_loop s start m i =
     (Inl ERR_SOCKET_BAD_PORT, s\<lparr>listen_log := listen_log s @ [start + i]\<rparr>)"
  by (subst findAvailablePort_loop.simps) (auto simp: isPortAvailable_eq)

lemma loop_exit:
  "\<not> i < m \<Longrightarrow> findAvailablePort_loop s start m i = (Inr (- 1), s)"
  by (subst findAvailablePort_loop.simps) simp

text \<open>
  Entered at counter \<open>i\<close> with the offsets \<open>i, \<dots>, k - 1\<close> busy, the loop probes
  \<open>start + i, \<dots>, start + k - 1\<close> and arrives at counter \<open>k\<close>. The induction is on the
  number of iterations before \<open>k\<close>.
\<close>

lemma loop_skip_busy:
  assumes "i \<le> k" "k \<le> m"
    and "\<forall>j. i \<le> j \<and> j < k \<longrightarrow> busy s (start + j)"
  shows "findAvailablePort_loop s start m i =
           findAvailablePort_loop
             (s\<lparr>listen_log := listen_log s @ [start + i..start + k - 1]\<rparr>) start m k"
  using assms
proof (induction "nat (k - i)" arbitrary: i s)
  case 0
  then have "i = k" by simp
  then show ?case by simp
next
  case (Suc n)
  then have lt: "i < k" by linarith
  with Suc.prems have now: "busy s (start + i)" and im: "i < m" by auto
  let ?s = "s\<lparr>listen_log := listen_log s @ [start + i]\<rparr>"
  have "findAvailablePort_loop ?s start m (i + 1) =
          findAvailablePort_loop
            (?s\<lparr>listen_log := listen_log ?s @ [start + (i + 1)..start + k - 1]\<rparr>) start m k"
  proof (rule Suc.hyps(1))
    show "n = nat (k - (i + 1))" using Suc.hyps(2) by linarith
    show "i + 1 \<le> k" using lt by simp
    show "k \<le> m" by fact
    show "\<forall>j. i + 1 \<le> j \<and> j < k \<longrightarrow> busy ?s (start + j)"
      using Suc.prems(3) by simp
  qed
  moreover have "[start + i..start + k - 1] = (start + i) # [start + (i + 1)..start + k - 1]"
    using lt by (simp add: upto_rec1 add.assoc)
  ultimately show ?case
    using now im by (simp add: loop_continue)
qed

text \<open>
  With the offsets before \<open>k\<close> busy and offset \<open>k\<close> free, the loop probes
  \<open>start + i, \<dots>, start + k\<close> and returns \<open>start + k\<close>.
\<close>

lemma loop_first_free:
  assumes "i \<le> k" "k < m"
    and "\<forall>j. i \<le> j \<and> j < k \<longrightarrow> busy s (start + j)"
    and "free s (start + k)"
  shows "findAvailablePort_loop s start m i =
           (Inr (start + k), s\<lparr>listen_log := listen_log s @ [start + i..start + k]\<rparr>)"
proof -
  have "[start + i..start + k] = [start + i..start + k - 1] @ [start + k]"
    using assms(1) by (simp add: upto_rec2)
  with loop_skip_busy [of i k m s start] assms show ?thesis
    by (simp add: loop_stop)
qed

text \<open>With every remaining offset busy the loop probes them all and returns -1.\<close>

lemma loop_exhausted:
  assumes "\<forall>j. i \<le> j \<and> j < m \<longrightarrow> busy s (start + j)"
  shows "findAvailablePort_loop s start m i =
           (Inr (- 1), s\<lparr>listen_log := listen_log s @ [start + i..start + m - 1]\<rparr>)"
proof (cases "i \<le> m")
  case True
  with loop_skip_busy [of i m m s start] assms show ?thesis
    by (simp add: loop_exit)
next
  case False
  then show ?thesis by (simp add: loop_exit)
qed

text \<open>
  With the offsets before \<open>k\<close> busy and \<open>start + k\<close> not a port, the loop is rejected
  at its probe of \<open>start + k\<close>.
\<close>

lemma loop_overrun:
  assumes "i \<le> k" "k < m"
    and "\<forall>j. i \<le> j \<and> j < k \<longrightarrow> busy s (start + j)"
    and "start + k < 0 \<or> 65535 < start + k"
  shows "findAvailablePort_loop s start m i =
           (Inl ERR_SOCKET_BAD_PORT,
            s\<lparr>listen_log := listen_log s @ [start + i..start + k]\<rparr>)"
proof -
  have "[start + i..start + k] = [start + i..start + k - 1] @ [start + k]"
    using assms(1) by (simp add: upto_rec2)
  with loop_skip_busy [of i k m s start] assms show ?thesis
    by (simp add: loop_reject)
qed

text \<open>A scan that returns, returns -1 or a port it was allowed to probe.\<close>

lemma loop_result_range:
  "fst (findAvailablePort_loop s start m i) = Inr r \<Longrightarrow>
   r = - 1 \<or> (start + i \<le> r \<and> r < start + m)"
proof (induction "nat (m - i)" arbitrary: i s)
  case 0
  then have "\<not> i < m" by simp
  with 0 show ?case by (simp add: loop_exit)
next
  case (Suc n)
  then have im: "i < m" by linarith
  consider (free) "free s (start + i)" | (busy) "busy s (start + i)"
    | (bad) "start + i < 0 \<or> 65535 < start + i"
    using busy_iff [of s "start + i"] by fastforce
  then show ?case
  proof cases
    case free
    with im Suc.prems show ?thesis by (simp add: loop_stop)
  next
    case busy
    let ?s = "s\<lparr>listen_log := listen_log s @ [start + i]\<rparr>"
    have "n = nat (m - (i + 1))" using Suc.hyps(2) by linarith
    moreover have "fst (findAvailablePort_loop ?s start m (i + 1)) = Inr r"
      using busy im Suc.prems by (simp add: loop_continue)
    ultimately have "r = - 1 \<or> (start + (i + 1) \<le> r \<and> r < start + m)"
      by (rule Suc.hyps(1))
    then show ?thesis by auto
  next
    case bad
    with im Suc.prems show ?thesis by (simp add: loop_reject)
  qed
qed

lemma findAvailablePort_default:
  "findAvailablePort s startPort None = findAvailablePort s startPort (Some 50)"
  by (simp add: findAvailablePort_def)

text \<open>
  The scan that \<^verbatim>\<open>getAvailablePort\<close> starts, \<^verbatim>\<open>findAvailablePort(preferredPort + 1)\<close>
  with the default budget, in terms of the window of ports
  \<open>preferredPort + 1, \<dots>, preferredPort + 50\<close>.
\<close>

lemma window_first_free:
  assumes "preferredPort + 1 \<le> found" and "found \<le> preferredPort + 50"
    and "\<forall>q. preferredPort + 1 \<le> q \<and> q < found \<longrightarrow> busy s q"
    and "free s found"
  shows "findAvailablePort s (preferredPort + 1) None =
           (Inr found, s\<lparr>listen_log := listen_log s @ [preferredPort + 1..found]\<rparr>)"
proof -
  have "\<forall>j. 0 \<le> j \<and> j < found - (preferredPort + 1) \<longrightarrow> busy s (preferredPort + 1 + j)"
    using assms(3) by simp
  with loop_first_free [of 0 "found - (preferredPort + 1)" 50 s "preferredPort + 1"] assms
  show ?thesis
    by (simp add: findAvailablePort_def)
qed

lemma window_all_busy:
  assumes "\<forall>q. preferredPort + 1 \<le> q \<and> q \<le> preferredPort + 50 \<longrightarrow> busy s q"
  shows "findAvailablePort s (preferredPort + 1) None =
           (Inr (- 1), s\<lparr>listen_log := listen_log s @ [preferredPort + 1..preferredPort + 50]\<rparr>)"
proof -
  have "\<forall>j. 0 \<le> j \<and> j < 50 \<longrightarrow> busy s (preferredPort + 1 + j)"
    using assms by simp
  with loop_exhausted [of 0 50 s "preferredPort + 1"]
  show ?thesis
    by (simp add: findAvailablePort_def add.commute)
qed

lemma window_overrun:
  assumes "preferredPort \<le> 65535" and "65486 \<le> preferredPort"
    and "\<forall>q. preferredPort + 1 \<le> q \<and> q \<le> 65535 \<longrightarrow> busy s q"
  shows "findAvailablePort s (preferredPort + 1) None =
           (Inl ERR_SOCKET_BAD_PORT,
            s\<lparr>listen_log := listen_log s @ [preferredPort + 1..65536]\<rparr>)"
proof -
  have "\<forall>j. 0 \<le> j \<and> j < 65536 - (preferredPort + 1) \<longrightarrow> busy s (preferredPort + 1 + j)"
    using assms(3) by simp
  with loop_overrun [of 0 "65536 - (preferredPort + 1)" 50 s "preferredPort + 1"] assms(1,2)
  show ?thesis
    by (simp add: findAvailablePort_def)
qed

lemma upto_cons: "a \<le> b \<Longrightarrow> a # [a + 1..b] = [a..b]"
  by (simp add: upto_rec1)

text \<open>
  The socket layer notices a socket that was left open: a second \<^verbatim>\<open>listen\<close> on a
  port this process still holds gets \<^verbatim>\<open>EADDRINUSE\<close>.
\<close>

lemma listen_twice_without_close:
  "free s prt \<Longrightarrow> fst (listen (snd (listen s prt)) prt) = Inr (Ev_error EADDRINUSE)"
  by (simp add: listen_def free_iff Let_def split: option.splits)

text \<open>
  A scan over a range with no free port: it returns -1 if every number of the range is
  a port, and is rejected at 65536 if the range runs past port 65535.
\<close>

lemma scan_all_busy:
  assumes "\<forall>j. 0 \<le> j \<and> j < maxAttempts \<longrightarrow> busy s (startPort + j)"
  shows "findAvailablePort s startPort (Some maxAttempts) =
           (Inr (- 1),
            s\<lparr>listen_log := listen_log s @ [startPort..startPort + maxAttempts - 1]\<rparr>)"
  using loop_exhausted [of 0 maxAttempts s startPort] assms
  by (simp add: findAvailablePort_def)

lemma scan_overrun:
  assumes "startPort \<le> 65535" and "65536 < startPort + maxAttempts"
    and "\<forall>q. startPort \<le> q \<and> q \<le> 65535 \<longrightarrow> busy s q"
  shows "findAvailablePort s startPort (Some maxAttempts) =
           (Inl ERR_SOCKET_BAD_PORT, s\<lparr>listen_log := listen_log s @ [startPort..65536]\<rparr>)"
proof -
  have "\<forall>j. 0 \<le> j \<and> j < 65536 - startPort \<longrightarrow> busy s (startPort + j)"
    using assms(3) by simp
  with loop_overrun [of 0 "65536 - startPort" maxAttempts s startPort] assms(1,2)
  show ?thesis
    by (simp add: findAvailablePort_def)
qed

text \<open>
  The resolution when the window after a busy preferred port has no free port: the
  failure record, if every number of the window is a port; a rejection, if the window
  runs past port 65535.
\<close>

lemma resolution_window_all_busy:
  assumes "autoSwitch_arg = None \<or> autoSwitch_arg = Some True"
    and "busy s preferredPort"
    and "\<forall>q. preferredPort + 1 \<le> q \<and> q \<le> preferredPort + 50 \<longrightarrow> busy s q"
  shows "getAvailablePort s preferredPort autoSwitch_arg =
           (Inr \<lparr>port = - 1, switched = False,
             message = Some (''Port '' @ toString preferredPort @
               '' is in use and no available ports found in range '' @
               toString (preferredPort + 1) @ ''-'' @ toString (preferredPort + 50) @ ''.'')\<rparr>,
            s\<lparr>listen_log := listen_log s @ [preferredPort..preferredPort + 50]\<rparr>)"
proof -
  let ?s1 = "s\<lparr>listen_log := listen_log s @ [preferredPort]\<rparr>"
  have auto: "(case autoSwitch_arg of None \<Rightarrow> True | Some b \<Rightarrow> b)"
    using assms(1) by auto
  have scan: "findAvailablePort ?s1 (preferredPort + 1) None =
      (Inr (- 1), ?s1\<lparr>listen_log := listen_log ?s1 @ [preferredPort + 1..preferredPort + 50]\<rparr>)"
    using assms(3) by (intro window_all_busy) simp
  have log: "listen_log ?s1 @ [preferredPort + 1..preferredPort + 50] =
      listen_log s @ [preferredPort..preferredPort + 50]"
    using upto_cons [of preferredPort "preferredPort + 50"] by simp
  show ?thesis
    using assms(2) auto log
    by (simp add: getAvailablePort_def isPortAvailable_busy scan)
qed

lemma resolution_window_overrun:
  assumes "autoSwitch_arg = None \<or> autoSwitch_arg = Some True"
    and "busy s preferredPort" and "65486 \<le> preferredPort"
    and "\<forall>q. preferredPort + 1 \<le> q \<and> q \<le> 65535 \<longrightarrow> busy s q"
  shows "getAvailablePort s preferredPort autoSwitch_arg =
           (Inl ERR_SOCKET_BAD_PORT,
            s\<lparr>listen_log := listen_log s @ [preferredPort..65536]\<rparr>)"
proof -
  let ?s1 = "s\<lparr>listen_log := listen_log s @ [preferredPort]\<rparr>"
  have auto: "(case autoSwitch_arg of None \<Rightarrow> True | Some b \<Rightarrow> b)"
    using assms(1) by auto
  have le: "preferredPort \<le> 65535"
    using assms(2) by (simp add: busy_iff)
  have scan: "findAvailablePort ?s1 (preferredPort + 1) None =
      (Inl ERR_SOCKET_BAD_PORT, ?s1\<lparr>listen_log := listen_log ?s1 @ [preferredPort + 1..65536]\<rparr>)"
    using le assms(3,4) by (intro window_overrun) simp_all
  have log: "listen_log ?s1 @ [preferredPort + 1..65536] = listen_log s @ [preferredPort..65536]"
    using le upto_cons [of preferredPort 65536] by simp
  show ?thesis
    using assms(2) auto log
    by (simp add: getAvailablePort_def isPortAvailable_busy scan)
qed

subsection \<open>The probe\<close>

text \<open>
  C7. Whatever the port and whatever error the \<^verbatim>\<open>"error"\<close> event carries
  (\<^verbatim>\<open>EADDRINUSE\<close>, \<^verbatim>\<open>EACCES\<close> or any other code), the probe resolves with
  \<open>False\<close>: the result does not depend on the error, the promise is resolved and not
  rejected, and the state is the one the failed \<^verbatim>\<open>listen\<close> left.
\<close>

theorem isPortAvailable_error_uniform:
  assumes "listen s prt = (Inr (Ev_error err), s')"
  shows "isPortAvailable s prt = (Inr False, s')"
  using assms by (simp add: isPortAvailable_def)

theorem isPortAvailable_error_uniform_witness:
  "isPortAvailable os_scan 3000 = (Inr False, os_scan\<lparr>listen_log := [3000]\<rparr>) \<and>
   isPortAvailable os_scan 3001 = (Inr False, os_scan\<lparr>listen_log := [3001]\<rparr>) \<and>
   isPortAvailable os_scan 3002 = (Inr False, os_scan\<lparr>listen_log := [3002]\<rparr>)"
  using isPortAvailable_error_uniform [of os_scan 3000 EADDRINUSE "os_scan\<lparr>listen_log := [3000]\<rparr>"]
    isPortAvailable_error_uniform [of os_scan 3001 EACCES "os_scan\<lparr>listen_log := [3001]\<rparr>"]
    isPortAvailable_error_uniform [of os_scan 3002 "EOTHER ''EADDRNOTAVAIL''"
      "os_scan\<lparr>listen_log := [3002]\<rparr>"]
  by (simp add: listen_def os_scan_def)

text \<open>
  C8. Probing a free port twice in a row, with nothing else changing the socket layer
  in between (the second probe starts in the state the first one returned), gives
  \<open>True\<close> both times: after the first probe this process holds the same ports as
  before, and the probed port is not among them.
\<close>

theorem isPortAvailable_twice:
  assumes "free s prt"
  shows "fst (isPortAvailable s prt) = Inr True \<and>
         bound (snd (isPortAvailable s prt)) = bound s \<and>
         prt \<notin> bound (snd (isPortAvailable s prt)) \<and>
         fst (isPortAvailable (snd (isPortAvailable s prt)) prt) = Inr True"
  using assms by (simp add: isPortAvailable_free) (simp add: free_iff)

theorem isPortAvailable_twice_witness:
  "fst (isPortAvailable os_8080 8081) = Inr True \<and>
   bound (snd (isPortAvailable os_8080 8081)) = {} \<and>
   fst (isPortAvailable (snd (isPortAvailable os_8080 8081)) 8081) = Inr True"
  using isPortAvailable_twice [of os_8080 8081]
  by (simp add: os_8080_def free_iff)

subsection \<open>The scan\<close>

text \<open>
  C1. Let \<open>startPort\<close> be a port number and \<open>startPort + k\<close> be the first free port
  among \<open>startPort, \<dots>, startPort + maxAttempts - 1\<close>: \<open>0 \<le> k < maxAttempts\<close>, no
  \<open>startPort + j\<close> with \<open>0 \<le> j < k\<close> is free and \<open>startPort + k\<close> is free. Then the
  scan returns exactly \<open>startPort + k\<close>, and the calls of \<^verbatim>\<open>listen\<close> it makes are
  those for \<open>startPort, startPort + 1, \<dots>, startPort + k\<close>, in this strictly increasing
  order and nothing else: no port above \<open>startPort + k\<close> is probed.
\<close>

theorem findAvailablePort_first_free:
  assumes "0 \<le> startPort" and "0 \<le> k" and "k < maxAttempts"
    and "\<forall>j. 0 \<le> j \<and> j < k \<longrightarrow> \<not> free s (startPort + j)"
    and "free s (startPort + k)"
  shows "findAvailablePort s startPort (Some maxAttempts) =
           (Inr (startPort + k),
            s\<lparr>listen_log := listen_log s @ [startPort..startPort + k]\<rparr>)"
proof -
  have "startPort + k \<le> 65535"
    using assms(5) by (simp add: free_iff)
  with assms(1,4) have "\<forall>j. 0 \<le> j \<and> j < k \<longrightarrow> busy s (startPort + j)"
    by (simp add: busy_iff)
  with loop_first_free [of 0 k maxAttempts s startPort] assms(2,3,5) show ?thesis
    by (simp add: findAvailablePort_def)
qed

theorem findAvailablePort_first_free_witness:
  "findAvailablePort os_scan 3000 (Some 10) =
     (Inr 3003, os_scan\<lparr>listen_log := [3000, 3001, 3002, 3003]\<rparr>)"
  using findAvailablePort_first_free [of 3000 3 10 os_scan]
  by (simp add: os_scan_def free_iff upto_rec1)

text \<open>
  C2. The claim is that the scan returns the sentinel -1 whenever no port among
  \<open>startPort, \<dots>, startPort + maxAttempts - 1\<close> is free. The loop does not stop at the
  last port: with ports 65534 and 65535 taken, nothing in the range of
  \<^verbatim>\<open>findAvailablePort(65534, 5)\<close> is free, and the scan goes on to call
  \<^verbatim>\<open>listen\<close> with 65536, which throws; the promise of the scan is rejected with
  \<^verbatim>\<open>ERR_SOCKET_BAD_PORT\<close> and -1 is not returned. (Lemma \<open>scan_all_busy\<close> has
  the case in which the range ends at or before port 65535.)
\<close>

theorem findAvailablePort_rejected_past_65535:
  "\<not> free os_high 65534 \<and> \<not> free os_high 65535 \<and> \<not> free os_high 65536 \<and>
   \<not> free os_high 65537 \<and> \<not> free os_high 65538 \<and>
   findAvailablePort os_high 65534 (Some 5) =
     (Inl ERR_SOCKET_BAD_PORT, os_high\<lparr>listen_log := [65534, 65535, 65536]\<rparr>)"
proof -
  have "\<forall>q. 65534 \<le> q \<and> q \<le> 65535 \<longrightarrow> busy os_high q"
    by (simp add: busy_iff free_iff os_high_def)
  then have "findAvailablePort os_high 65534 (Some 5) =
      (Inl ERR_SOCKET_BAD_PORT,
       os_high\<lparr>listen_log := listen_log os_high @ [65534..65536]\<rparr>)"
    by (intro scan_overrun) simp_all
  then show ?thesis
    by (simp add: os_high_def free_iff upto_rec1)
qed

text \<open>
  C9. With \<^verbatim>\<open>maxAttempts\<close> zero or negative the scan returns -1 at once: the state
  of the socket layer is unchanged, so no port was probed.
\<close>

theorem findAvailablePort_no_attempts:
  assumes "maxAttempts \<le> 0"
  shows "findAvailablePort s startPort (Some maxAttempts) = (Inr (- 1), s)"
  using assms by (simp add: findAvailablePort_def loop_exit)

theorem findAvailablePort_no_attempts_witness:
  "findAvailablePort os_idle 3000 (Some 0) = (Inr (- 1), os_idle) \<and>
   findAvailablePort os_idle 3000 (Some (- 3)) = (Inr (- 1), os_idle)"
  using findAvailablePort_no_attempts [of 0 os_idle 3000]
    findAvailablePort_no_attempts [of "- 3" os_idle 3000]
  by simp

subsection \<open>Preferred-port resolution\<close>

text \<open>
  C3. If the probe of the preferred port reports it available, the resolution returns
  the preferred port with \<open>switched = False\<close> and no message, whatever was passed for
  \<^verbatim>\<open>autoSwitch\<close> (nothing, true or false). Only the preferred port has been probed.
\<close>

theorem getAvailablePort_preferred_available:
  assumes "fst (isPortAvailable s preferredPort) = Inr True"
  shows "getAvailablePort s preferredPort autoSwitch_arg =
           (Inr \<lparr>port = preferredPort, switched = False, message = None\<rparr>,
            s\<lparr>listen_log := listen_log s @ [preferredPort]\<rparr>)"
  using assms by (simp add: getAvailablePort_def isPortAvailable_eq split: if_splits)

theorem getAvailablePort_preferred_available_witness:
  "getAvailablePort os_8080 8079 None =
     (Inr \<lparr>port = 8079, switched = False, message = None\<rparr>, os_8080\<lparr>listen_log := [8079]\<rparr>) \<and>
   getAvailablePort os_8080 8079 (Some True) =
     (Inr \<lparr>port = 8079, switched = False, message = None\<rparr>, os_8080\<lparr>listen_log := [8079]\<rparr>) \<and>
   getAvailablePort os_8080 8079 (Some False) =
     (Inr \<lparr>port = 8079, switched = False, message = None\<rparr>, os_8080\<lparr>listen_log := [8079]\<rparr>)"
  using getAvailablePort_preferred_available [of os_8080 8079 None]
    getAvailablePort_preferred_available [of os_8080 8079 "Some True"]
    getAvailablePort_preferred_available [of os_8080 8079 "Some False"]
  by (simp add: os_8080_def isPortAvailable_eq free_iff)

text \<open>
  C4. If the preferred port is busy and \<^verbatim>\<open>autoSwitch\<close> is false, the resolution
  returns port -1 with \<open>switched = False\<close> and the message of the source's template,
  which contains the decimal numeral of the preferred port. The only call of
  \<^verbatim>\<open>listen\<close> is the one for the preferred port: no further port is scanned.
\<close>

theorem getAvailablePort_busy_no_autoSwitch:
  assumes "busy s preferredPort"
  shows "getAvailablePort s preferredPort (Some False) =
           (Inr \<lparr>port = - 1, switched = False,
             message = Some (''Port '' @ toString preferredPort @
               '' is already in use. Please specify a different port in config.json or enable auto port switching.'')\<rparr>,
            s\<lparr>listen_log := listen_log s @ [preferredPort]\<rparr>) \<and>
         (\<exists>r msg. fst (getAvailablePort s preferredPort (Some False)) = Inr r \<and>
                message r = Some msg \<and> sublist (toString preferredPort) msg)"
proof -
  let ?msg = "''Port '' @ toString preferredPort @
    '' is already in use. Please specify a different port in config.json or enable auto port switching.''"
  have res: "getAvailablePort s preferredPort (Some False) =
      (Inr \<lparr>port = - 1, switched = False, message = Some ?msg\<rparr>,
       s\<lparr>listen_log := listen_log s @ [preferredPort]\<rparr>)"
    using assms by (simp add: getAvailablePort_def isPortAvailable_busy)
  have "sublist (toString preferredPort) ?msg"
    by (rule sublist_appendI)
  with res show ?thesis by simp
qed

theorem getAvailablePort_busy_no_autoSwitch_witness:
  "getAvailablePort os_8080 8080 (Some False) =
     (Inr \<lparr>port = - 1, switched = False,
       message = Some ''Port 8080 is already in use. Please specify a different port in config.json or enable auto port switching.''\<rparr>,
      os_8080\<lparr>listen_log := [8080]\<rparr>)"
proof -
  have busy: "busy os_8080 8080"
    by (simp add: os_8080_def busy_iff free_iff)
  have num: "toString 8080 = ''8080''"
    by (simp add: toString_def decimal.simps digit_def)
  have log: "listen_log os_8080 = []"
    by (simp add: os_8080_def)
  from getAvailablePort_busy_no_autoSwitch [OF busy] show ?thesis
    by (simp add: num log)
qed

text \<open>
  C5. Let the preferred port be busy, \<^verbatim>\<open>autoSwitch\<close> be true (passed or by default),
  and \<open>found\<close> be the first free port of the window
  \<open>preferredPort + 1, \<dots>, preferredPort + 50\<close>. Then the resolution returns \<open>found\<close>
  with \<open>switched = True\<close> and the message of the source's template, which contains the
  decimal numerals of both the preferred and the found port; the ports probed are
  \<open>preferredPort, \<dots>, found\<close>. The window is the one of the scan's default budget:
  \<^verbatim>\<open>getAvailablePort\<close> takes no budget and passes none on.
\<close>

theorem getAvailablePort_switches:
  assumes "autoSwitch_arg = None \<or> autoSwitch_arg = Some True"
    and "busy s preferredPort"
    and "preferredPort + 1 \<le> found" and "found \<le> preferredPort + 50"
    and "\<forall>q. preferredPort + 1 \<le> q \<and> q < found \<longrightarrow> \<not> free s q"
    and "free s found"
  shows "getAvailablePort s preferredPort autoSwitch_arg =
           (Inr \<lparr>port = found, switched = True,
             message = Some (''Port '' @ toString preferredPort @
               '' is in use, automatically switched to port '' @ toString found @ ''.'')\<rparr>,
            s\<lparr>listen_log := listen_log s @ [preferredPort..found]\<rparr>) \<and>
         (\<exists>r msg. fst (getAvailablePort s preferredPort autoSwitch_arg) = Inr r \<and>
                message r = Some msg \<and>
                sublist (toString preferredPort) msg \<and> sublist (toString found) msg)"
proof -
  let ?s1 = "s\<lparr>listen_log := listen_log s @ [preferredPort]\<rparr>"
  let ?msg = "''Port '' @ toString preferredPort @
    '' is in use, automatically switched to port '' @ toString found @ ''.''"
  have auto: "(case autoSwitch_arg of None \<Rightarrow> True | Some b \<Rightarrow> b)"
    using assms(1) by auto
  have lo: "0 \<le> preferredPort"
    using assms(2) by (simp add: busy_iff)
  have hi: "found \<le> 65535"
    using assms(6) by (simp add: free_iff)
  have nonsentinel: "found \<noteq> - 1"
    using lo assms(3) by simp
  have between: "\<forall>q. preferredPort + 1 \<le> q \<and> q < found \<longrightarrow> busy s q"
    using lo hi assms(5) by (simp add: busy_iff)
  have scan: "findAvailablePort ?s1 (preferredPort + 1) None =
      (Inr found, ?s1\<lparr>listen_log := listen_log ?s1 @ [preferredPort + 1..found]\<rparr>)"
    using assms(3,4,6) between by (intro window_first_free) simp_all
  have log: "listen_log ?s1 @ [preferredPort + 1..found] = listen_log s @ [preferredPort..found]"
    using assms(3) upto_cons [of preferredPort found] by simp
  have res: "getAvailablePort s preferredPort autoSwitch_arg =
      (Inr \<lparr>port = found, switched = True, message = Some ?msg\<rparr>,
       s\<lparr>listen_log := listen_log s @ [preferredPort..found]\<rparr>)"
    using assms(2) auto nonsentinel log
    by (simp add: getAvailablePort_def isPortAvailable_busy scan)
  have "sublist (toString preferredPort) (''Port '' @ toString preferredPort @
      ('' is in use, automatically switched to port '' @ toString found @ ''.''))"
    by (rule sublist_appendI)
  moreover have "sublist (toString found) ((''Port '' @ toString preferredPort @
      '' is in use, automatically switched to port '') @ toString found @ ''.'')"
    by (rule sublist_appendI)
  ultimately have "sublist (toString preferredPort) ?msg \<and> sublist (toString found) ?msg"
    by simp
  with res show ?thesis by simp
qed

theorem getAvailablePort_switches_witness:
  "getAvailablePort os_8080 8080 None =
     (Inr \<lparr>port = 8081, switched = True,
       message = Some ''Port 8080 is in use, automatically switched to port 8081.''\<rparr>,
      os_8080\<lparr>listen_log := [8080, 8081]\<rparr>) \<and>
   fst (getAvailablePort os_window_edge 8080 (Some True)) =
     Inr \<lparr>port = 8130, switched = True,
       message = Some ''Port 8080 is in use, automatically switched to port 8130.''\<rparr>"
proof -
  have num: "toString 8080 = ''8080''" "toString 8081 = ''8081''" "toString 8130 = ''8130''"
    by (simp_all add: toString_def decimal.simps digit_def)
  have near: "getAvailablePort os_8080 8080 None =
     (Inr \<lparr>port = 8081, switched = True,
       message = Some ''Port 8080 is in use, automatically switched to port 8081.''\<rparr>,
      os_8080\<lparr>listen_log := [8080, 8081]\<rparr>)"
    using getAvailablePort_switches [of None os_8080 8080 8081]
    by (simp add: os_8080_def busy_iff free_iff num upto_rec1)
  have edge: "fst (getAvailablePort os_window_edge 8080 (Some True)) =
     Inr \<lparr>port = 8130, switched = True,
       message = Some ''Port 8080 is in use, automatically switched to port 8130.''\<rparr>"
    using getAvailablePort_switches [of "Some True" os_window_edge 8080 8130]
    by (simp add: os_window_edge_def busy_iff free_iff num)
  from near edge show ?thesis by (rule conjI)
qed

text \<open>
  C6. The claim is that the resolution returns port -1 with \<open>switched = False\<close> and a
  message naming the range \<open>preferredPort + 1\<close> to \<open>preferredPort + 50\<close> whenever the
  preferred port is busy, \<^verbatim>\<open>autoSwitch\<close> is true and no port of that window is free.
  The window is not cut at the last port: with ports 65500 to 65535 taken, the preferred
  port 65500 is busy and nothing in 65501..65550 is free, and the scan started by
  \<^verbatim>\<open>getAvailablePort(65500)\<close> goes on to call \<^verbatim>\<open>listen\<close> with 65536, which
  throws; the promise of the resolution is rejected with \<^verbatim>\<open>ERR_SOCKET_BAD_PORT\<close>
  and no record is returned. (Lemma \<open>resolution_window_all_busy\<close> has the case in
  which the window ends at or before port 65535.)
\<close>

theorem getAvailablePort_rejected_past_65535:
  "\<not> free os_high 65500 \<and> [q \<leftarrow> [65501..65550]. free os_high q] = [] \<and>
   getAvailablePort os_high 65500 None =
     (Inl ERR_SOCKET_BAD_PORT, os_high\<lparr>listen_log := [65500..65536]\<rparr>)"
proof -
  have taken: "\<forall>q. 65500 \<le> q \<and> q \<le> 65535 \<longrightarrow> busy os_high q"
    by (simp add: busy_iff free_iff os_high_def)
  then have "busy os_high 65500" and "\<forall>q. 65500 + 1 \<le> q \<and> q \<le> 65535 \<longrightarrow> busy os_high q"
    by simp_all
  then have "getAvailablePort os_high 65500 None =
      (Inl ERR_SOCKET_BAD_PORT, os_high\<lparr>listen_log := listen_log os_high @ [65500..65536]\<rparr>)"
    by (intro resolution_window_overrun) simp_all
  moreover have "listen_log os_high = []"
    by (simp add: os_high_def)
  moreover have "\<not> free os_high 65500"
    by (simp add: free_iff os_high_def)
  moreover have "[q \<leftarrow> [65501..65550]. free os_high q] = []"
    by (simp add: filter_empty_conv free_iff os_high_def)
  ultimately show ?thesis by simp
qed

text \<open>
  C10. For every state, preferred port and \<^verbatim>\<open>autoSwitch\<close> argument, a result of the
  resolution has \<open>switched\<close> true exactly when its port is not -1 and differs from the
  preferred port; in particular a result with port -1 has \<open>switched\<close> false, and a
  result with \<open>switched\<close> true has a port of at least \<open>preferredPort + 1\<close>.
\<close>

theorem getAvailablePort_switched_iff:
  assumes "fst (getAvailablePort s preferredPort autoSwitch_arg) = Inr r"
  shows "(switched r \<longleftrightarrow> port r \<noteq> - 1 \<and> port r \<noteq> preferredPort) \<and>
         (port r = - 1 \<longrightarrow> \<not> switched r) \<and>
         (switched r \<longrightarrow> preferredPort + 1 \<le> port r)"
proof -
  let ?s1 = "s\<lparr>listen_log := listen_log s @ [preferredPort]\<rparr>"
  have range: "found = - 1 \<or> preferredPort + 1 \<le> found"
    if "findAvailablePort_loop ?s1 (preferredPort + 1) 50 0 = (Inr found, s2)" for found s2
    using loop_result_range [of ?s1 "preferredPort + 1" 50 0 found] that by auto
  from assms show ?thesis
    by (auto simp: getAvailablePort_def isPortAvailable_eq findAvailablePort_def
        split: prod.splits option.splits if_splits sum.splits dest: range)
qed

theorem getAvailablePort_switched_iff_witness:
  "(\<exists>r. fst (getAvailablePort os_8080 8080 None) = Inr r \<and>
        switched r \<and> port r = 8081 \<and> port r \<noteq> - 1 \<and> port r \<noteq> 8080 \<and> 8080 + 1 \<le> port r) \<and>
   (\<exists>r. fst (getAvailablePort os_8080_8130 8080 None) = Inr r \<and>
        port r = - 1 \<and> \<not> switched r)"
proof -
  let ?r1 = "\<lparr>port = 8081, switched = True,
       message = Some (''Port '' @ toString 8080 @
         '' is in use, automatically switched to port '' @ toString 8081 @ ''.'')\<rparr>"
  let ?r2 = "\<lparr>port = - 1, switched = False,
       message = Some (''Port '' @ toString 8080 @
         '' is in use and no available ports found in range '' @
         toString (8080 + 1) @ ''-'' @ toString (8080 + 50) @ ''.'')\<rparr>"
  have "busy os_8080 8080" and "free os_8080 (8080 + 1)"
    by (simp_all add: os_8080_def busy_iff free_iff)
  then have sw: "fst (getAvailablePort os_8080 8080 None) = Inr ?r1"
    by (simp add: getAvailablePort_def isPortAvailable_busy findAvailablePort_def loop_stop)
  have "busy os_8080_8130 8080"
    and "\<forall>q. 8080 + 1 \<le> q \<and> q \<le> 8080 + 50 \<longrightarrow> busy os_8080_8130 q"
    by (simp_all add: os_8080_8130_def busy_iff free_iff)
  then have fail: "fst (getAvailablePort os_8080_8130 8080 None) = Inr ?r2"
    by (simp add: resolution_window_all_busy)
  have "switched ?r1 \<and> port ?r1 = 8081 \<and> port ?r1 \<noteq> - 1 \<and> port ?r1 \<noteq> 8080 \<and>
      8080 + 1 \<le> port ?r1"
    using getAvailablePort_switched_iff [OF sw] by simp
  with sw have first: "\<exists>r. fst (getAvailablePort os_8080 8080 None) = Inr r \<and>
      switched r \<and> port r = 8081 \<and> port r \<noteq> - 1 \<and> port r \<noteq> 8080 \<and> 8080 + 1 \<le> port r"
    by blast
  have "port ?r2 = - 1 \<and> \<not> switched ?r2"
    using getAvailablePort_switched_iff [OF fail] by simp
  with fail have second: "\<exists>r. fst (getAvailablePort os_8080_8130 8080 None) = Inr r \<and>
      port r = - 1 \<and> \<not> switched r"
    by blast
  from first second show ?thesis by (rule conjI)
qed

end
